theory Spec2Isabelle
  imports Main "HOL-Library.Sublist"
begin

section \<open>Strings and JavaScript values\<close>

text \<open>
  Buffers and strings of the relay are modelled as \<open>string\<close> (lists of 8-bit characters).
  A JavaScript string is identified with its UTF-8 encoding, which is what
  \<^verbatim>\<open>Buffer.toString()\<close> inverts on well-formed input.
\<close>

definition CR :: char where
  "CR = CHR 0x0D"

definition LF :: char where
  "LF = CHR 0x0A"

definition CRLF :: string where
  "CRLF = [CR, LF]"

text \<open>\<^verbatim>\<open>String.prototype.endsWith\<close>.\<close>

definition endsWith :: "string \<Rightarrow> string \<Rightarrow> bool" where
  "endsWith s suf = suffix suf s"

text \<open>
  A number inside a template literal is rendered in decimal
  (\<^verbatim>\<open>Number.prototype.toString\<close>).
\<close>

definition digit_char :: "nat \<Rightarrow> char" where
  "digit_char d = ''0123456789'' ! d"

function number_to_string :: "nat \<Rightarrow> string" where
  "number_to_string n =
     (let q = n div 10; last_digit = digit_char (n mod 10)
      in if q = 0 then [last_digit] else number_to_string q @ [last_digit])"
  by pat_completeness auto
termination
  by (relation "measure id") auto

declare number_to_string.simps [simp del]

text \<open>
  \<^verbatim>\<open>hosts\<close>, \<^verbatim>\<open>clients\<close> and \<^verbatim>\<open>keyToHost\<close> are plain objects
  (\<^verbatim>\<open>{}\<close>). Reading \<^verbatim>\<open>obj[k]\<close> yields the own property when there is one, and
  otherwise walks the prototype chain: the property names of \<^verbatim>\<open>Object.prototype\<close>
  yield a value that is truthy but is neither an array nor a string.
\<close>

definition object_prototype_keys :: "string list" where
  "object_prototype_keys =
     [''constructor'', ''__defineGetter__'', ''__defineSetter__'', ''hasOwnProperty'',
      ''__lookupGetter__'', ''__lookupSetter__'', ''isPrototypeOf'',
      ''propertyIsEnumerable'', ''toString'', ''valueOf'', ''__proto__'',
      ''toLocaleString'']"

datatype 'a js_value = Undefined | Own 'a | Inherited

definition js_get :: "(string \<rightharpoonup> 'a) \<Rightarrow> string \<Rightarrow> 'a js_value" where
  "js_get obj k =
     (case obj k of
        Some v \<Rightarrow> Own v
      | None \<Rightarrow> if k \<in> set object_prototype_keys then Inherited else Undefined)"

text \<open>Truthiness of an object slot holding an array: every array is truthy.\<close>

fun truthy_array :: "'a list js_value \<Rightarrow> bool" where
  "truthy_array Undefined = False"
| "truthy_array (Own xs) = True"
| "truthy_array Inherited = True"

section \<open>The relay of \<^verbatim>\<open>relay.js\<close>: state\<close>

datatype socket_type = TYPE_CLIENT | TYPE_HOST

text \<open>
  A handler that throws: \<open>TypeError\<close> where \<^verbatim>\<open>relay.js\<close> reads a property of
  \<^verbatim>\<open>undefined\<close> or calls what is no function, \<open>Rethrown\<close> where
  \<^verbatim>\<open>RelaySocket\<close> throws again a failure it does not handle.
\<close>

datatype error = TypeError | Rethrown

text \<open>
  The \<^verbatim>\<open>relaySocket\<close> object of one accepted connection. \<open>sock_host\<close> is
  \<^verbatim>\<open>null\<close> (\<open>None\<close>) until the socket is classified. \<open>listening\<close> tells whether
  \<^verbatim>\<open>onSocketClientData\<close> is still attached to the socket's \<^verbatim>\<open>data\<close> event.
\<close>

record relay_socket =
  sock_host :: "string option"
  requestBuffer :: string
  sock_type :: socket_type
  busy :: bool
  listening :: bool

definition new_socket :: relay_socket where
  "new_socket = \<lparr>sock_host = None, requestBuffer = [], sock_type = TYPE_CLIENT,
                  busy = False, listening = True\<rparr>"

text \<open>Payloads handed to \<^verbatim>\<open>sendResponse\<close>.\<close>

datatype response =
    OpenAck string string   \<comment> \<open>\<^verbatim>\<open>{ key, host }\<close>\<close>
  | JoinAck                 \<comment> \<open>\<^verbatim>\<open>{}\<close>\<close>
  | ErrorResp string        \<comment> \<open>\<^verbatim>\<open>{ error }\<close>\<close>

text \<open>
  What the relay does, in program order: responses on a control connection, raw writes,
  pipes between two sockets, closing a socket and the request of a certificate. The
  insertion of an exposer socket into \<^verbatim>\<open>hosts[host]\<close> is recorded as well
  (\<open>Enlist\<close>): it is no output, it marks the moment of the insertion among the
  outputs.
\<close>

datatype effect =
    Respond nat response
  | Write nat string
  | Pipe nat nat
  | End nat
  | GetCertOnDemand string
  | Enlist string nat

record relay_config =
  domain :: string
  http :: bool

text \<open>
  The closure state of \<^verbatim>\<open>relay(...)\<close>. Arrays of \<^verbatim>\<open>relaySocket\<close> objects are lists of
  socket ids; the objects themselves live in \<open>sockets\<close>, so that setting \<^verbatim>\<open>busy\<close>
  through one reference is seen through every other.
\<close>

record relay_state =
  couloirCounter :: nat
  hosts :: "string \<rightharpoonup> nat list"
  clients :: "string \<rightharpoonup> nat list"
  keyToHost :: "string \<rightharpoonup> string"
  socketCounter :: nat
  sockets :: "nat \<Rightarrow> relay_socket"
  io :: "effect list"

definition init_state :: relay_state where
  "init_state = \<lparr>couloirCounter = 0, hosts = Map.empty, clients = Map.empty,
                  keyToHost = Map.empty, socketCounter = 0,
                  sockets = (\<lambda>_. new_socket), io = []\<rparr>"

definition emit :: "effect \<Rightarrow> relay_state \<Rightarrow> relay_state" where
  "emit e st = st\<lparr>io := io st @ [e]\<rparr>"

definition upd_socket :: "nat \<Rightarrow> (relay_socket \<Rightarrow> relay_socket) \<Rightarrow> relay_state \<Rightarrow> relay_state" where
  "upd_socket sid f st = st\<lparr>sockets := (sockets st)(sid := f (sockets st sid))\<rparr>"

section \<open>Opening a couloir\<close>

text \<open>The name synthesised at \<^verbatim>\<open>relay.js:101\<close>.\<close>

definition default_host :: "string \<Rightarrow> nat \<Rightarrow> string" where
  "default_host d n =
     ''couloir'' @ (if n > 1 then number_to_string n else []) @ ''.'' @ d"

definition chosen_host :: "relay_config \<Rightarrow> nat \<Rightarrow> string \<Rightarrow> string" where
  "chosen_host cfg n host =
     (if \<not> endsWith host (''.'' @ domain cfg) then default_host (domain cfg) n else host)"

text \<open>
  \<^verbatim>\<open>onCouloirOpen(host, sendResponse)\<close> on socket \<open>sid\<close>. The argument \<open>host\<close> is
  \<open>None\<close> when the handler is called with \<^verbatim>\<open>undefined\<close>, on which
  \<^verbatim>\<open>host.endsWith\<close> throws. \<open>key\<close> is the outcome of
  \<^verbatim>\<open>crypto.randomBytes(24).toString("hex")\<close>.
\<close>

definition onCouloirOpen ::
  "relay_config \<Rightarrow> string \<Rightarrow> nat \<Rightarrow> string option \<Rightarrow> relay_state \<Rightarrow> error + relay_state" where
  "onCouloirOpen cfg key sid host_arg st =
     (let st1 = upd_socket sid (\<lambda>s. s\<lparr>sock_type := TYPE_HOST\<rparr>) st in
      case host_arg of
        None \<Rightarrow> Inl TypeError
      | Some host0 \<Rightarrow>
          let host = chosen_host cfg (couloirCounter st1) host0 in
          if truthy_array (js_get (hosts st1) host)
          then Inr (emit (Respond sid
                 (ErrorResp (''Couloir host '' @ host @ '' is already opened''))) st1)
          else
            let st2 = st1\<lparr>couloirCounter := couloirCounter st1 + 1\<rparr>;
                st3 = (if http cfg then st2 else emit (GetCertOnDemand host) st2);
                st4 = upd_socket sid (\<lambda>s. s\<lparr>sock_host := Some host\<rparr>) st3;
                st5 = st4\<lparr>keyToHost := (keyToHost st4)(key \<mapsto> host)\<rparr>;
                st6 = st5\<lparr>hosts := (hosts st5)(host \<mapsto> [])\<rparr>;
                st7 = st6\<lparr>clients := (clients st6)(host \<mapsto> [])\<rparr>
            in Inr (emit (Respond sid (OpenAck key host)) st7))"

section \<open>Pairing\<close>

text \<open>
  The \<^verbatim>\<open>length\<close> of the values inherited from \<^verbatim>\<open>Object.prototype\<close> (the arity
  of the built-in functions; \<^verbatim>\<open>__proto__\<close> has none, which is falsy like \<open>0\<close>).
\<close>

definition inherited_length :: "string \<Rightarrow> nat" where
  "inherited_length k =
     (if k \<in> set [''__defineGetter__'', ''__defineSetter__''] then 2
      else if k \<in> set [''constructor'', ''hasOwnProperty'', ''__lookupGetter__'',
                         ''__lookupSetter__'', ''isPrototypeOf'', ''propertyIsEnumerable'']
      then 1 else 0)"

text \<open>
  One round of the loop body of \<^verbatim>\<open>bindNextSockets\<close> (\<^verbatim>\<open>relay.js:69-73\<close>): both
  sockets are flagged busy, the client is piped into the host socket, the bytes already
  read from the client are written to the host socket, and the host socket is piped back.
\<close>

definition pair_sockets :: "nat \<Rightarrow> nat \<Rightarrow> relay_state \<Rightarrow> relay_state" where
  "pair_sockets c h st =
     (let st1 = upd_socket h (\<lambda>s. s\<lparr>busy := True\<rparr>) st;
          st2 = upd_socket c (\<lambda>s. s\<lparr>busy := True\<rparr>) st1;
          st3 = emit (Pipe c h) st2;
          st4 = emit (Write h (requestBuffer (sockets st3 c))) st3
      in emit (Pipe h c) st4)"

text \<open>
  \<^verbatim>\<open>bindNextSockets(host)\<close>. \<open>bind_while\<close> is its \<^verbatim>\<open>while\<close> loop: the local
  array \<^verbatim>\<open>pendingHosts\<close> is computed once per call and never changed by the loop, which
  shifts one client, pairs it with \<^verbatim>\<open>pendingHosts[0]\<close>, calls \<^verbatim>\<open>bindNextSockets\<close>
  again and then tests its condition anew.
\<close>

function bindNextSockets :: "string \<Rightarrow> relay_state \<Rightarrow> error + relay_state"
  and bind_while :: "string \<Rightarrow> nat list \<Rightarrow> relay_state \<Rightarrow> error + relay_state" where
  "bindNextSockets host st =
     (case js_get (hosts st) host of
        Own hs \<Rightarrow>
          (let pendingHosts = filter (\<lambda>i. \<not> busy (sockets st i)) hs in
           case js_get (clients st) host of
             Own cq \<Rightarrow> bind_while host pendingHosts st
           | Undefined \<Rightarrow> Inl TypeError
           | Inherited \<Rightarrow>
               if inherited_length host > 0 \<and> pendingHosts \<noteq> [] then Inl TypeError
               else Inr st)
      | Undefined \<Rightarrow> Inl TypeError
      | Inherited \<Rightarrow> Inl TypeError)"
| "bind_while host pendingHosts st =
     (case clients st host of
        None \<Rightarrow> Inl TypeError
      | Some cq \<Rightarrow>
          if cq \<noteq> [] \<and> pendingHosts \<noteq> [] then
            (let clientSocket = hd cq;
                 st1 = st\<lparr>clients := (clients st)(host \<mapsto> tl cq)\<rparr>;
                 hostSocket = hd pendingHosts;
                 st2 = pair_sockets clientSocket hostSocket st1
             in case bindNextSockets host st2 of
                  Inl e \<Rightarrow> Inl e
                | Inr st3 \<Rightarrow> bind_while host pendingHosts st3)
          else Inr st)"
  by pat_completeness auto

text \<open>The loop terminates: every round shifts one client off the queue.\<close>

definition queue_len :: "string \<Rightarrow> relay_state \<Rightarrow> nat" where
  "queue_len host st = (case clients st host of None \<Rightarrow> 0 | Some cq \<Rightarrow> length cq)"


lemma clients_pair_sockets [simp]: "clients (pair_sockets c h st) = clients st"
  by (simp add: pair_sockets_def Let_def emit_def upd_socket_def)

lemma queue_len_pair_sockets [simp]: "queue_len host (pair_sockets c h st) = queue_len host st"
  by (simp add: queue_len_def pair_sockets_def Let_def emit_def upd_socket_def)

lemma bind_queue_le_partial:
  "bindNextSockets_bind_while_dom (Inl (host, st)) \<Longrightarrow>
     (\<forall>st'. bindNextSockets host st = Inr st' \<longrightarrow> queue_len host st' \<le> queue_len host st)"
  "bindNextSockets_bind_while_dom (Inr (host, ph, st)) \<Longrightarrow>
     (\<forall>st'. bind_while host ph st = Inr st' \<longrightarrow> queue_len host st' \<le> queue_len host st)"
proof (induction host st and host ph st rule: bindNextSockets_bind_while.pinduct)
  case (1 host st)
  show ?case
    using "1.IH" "1.hyps"
    by (auto simp: bindNextSockets.psimps Let_def split: js_value.splits if_splits)
next
  case (2 host ph st)
  show ?case
  proof (intro allI impI)
    fix st'
    assume res: "bind_while host ph st = Inr st'"
    show "queue_len host st' \<le> queue_len host st"
    proof (cases "clients st host")
      case None
      with res "2.hyps" show ?thesis by (simp add: bind_while.psimps)
    next
      case (Some cq)
      show ?thesis
      proof (cases "cq \<noteq> [] \<and> ph \<noteq> []")
        case False
        with res "2.hyps" Some show ?thesis by (auto simp: bind_while.psimps)
      next
        case True
        define st2 where "st2 = pair_sockets (hd cq) (hd ph) (st\<lparr>clients := (clients st)(host \<mapsto> tl cq)\<rparr>)"
        from res "2.hyps" Some True obtain st3 where
          b: "bindNextSockets host st2 = Inr st3" and w: "bind_while host ph st3 = Inr st'"
          by (auto simp: bind_while.psimps Let_def st2_def split: sum.splits)
        have "queue_len host st3 \<le> queue_len host st2"
          using "2.IH"(1)[OF Some True refl refl refl refl] b by (simp add: st2_def)
        moreover have "queue_len host st' \<le> queue_len host st3"
          using "2.IH"(2)[OF Some True refl refl refl refl] b w by (simp add: st2_def)
        moreover have "queue_len host st2 \<le> queue_len host st"
          using Some by (simp add: st2_def queue_len_def)
        ultimately show ?thesis by simp
      qed
    qed
  qed
qed

termination bindNextSockets
proof (relation "measure (\<lambda>x. case x of
          Inl (host, st) \<Rightarrow> 2 * queue_len host st + 1
        | Inr (host, ph, st) \<Rightarrow> 2 * queue_len host st)", goal_cases)
  case 1
  show ?case by simp
next
  case (2 host st hs ph cq)
  then show ?case by simp
next
  case (3 host ph st cq c st1 h st2)
  then show ?case by (cases cq) (auto simp: queue_len_def)
next
  case (4 host ph st cq c st1 h st2 st3)
  then have "queue_len host st3 \<le> queue_len host st2"
    using bind_queue_le_partial(1) by blast
  with 4 show ?case by (cases cq) (auto simp: queue_len_def)
qed

declare bindNextSockets.simps [simp del] bind_while.simps [simp del]

section \<open>Joining a couloir\<close>

text \<open>
  \<^verbatim>\<open>onCouloirJoin(key, sendResponse)\<close> on socket \<open>sid\<close> (\<^verbatim>\<open>relay.js:128-143\<close>).
  \<open>join_enlist\<close> is its first two statements, \<^verbatim>\<open>relaySocket.host = host\<close> and
  \<^verbatim>\<open>hosts[host].push(relaySocket)\<close>; the response and the call of
  \<^verbatim>\<open>bindNextSockets\<close> follow. A key that names a property of
  \<^verbatim>\<open>Object.prototype\<close> reads a built-in value, under whose text no couloir is
  registered, so that \<^verbatim>\<open>hosts[host].push\<close> throws.
\<close>

definition join_enlist :: "string \<Rightarrow> nat \<Rightarrow> relay_state \<Rightarrow> error + relay_state" where
  "join_enlist host sid st =
     (let st2 = upd_socket sid (\<lambda>s. s\<lparr>sock_host := Some host\<rparr>) st in
      case js_get (hosts st2) host of
        Own hs \<Rightarrow>
          Inr (emit (Enlist host sid) (st2\<lparr>hosts := (hosts st2)(host \<mapsto> hs @ [sid])\<rparr>))
      | Undefined \<Rightarrow> Inl TypeError
      | Inherited \<Rightarrow> Inl TypeError)"

definition invalid_key_message :: string where
  "invalid_key_message = ''Invalid couloir key. Please restart your couloir client.''"

definition onCouloirJoin :: "nat \<Rightarrow> string \<Rightarrow> relay_state \<Rightarrow> error + relay_state" where
  "onCouloirJoin sid key st =
     (let st1 = upd_socket sid (\<lambda>s. s\<lparr>sock_type := TYPE_HOST\<rparr>) st in
      case js_get (keyToHost st1) key of
        Own host \<Rightarrow>
          if host \<noteq> [] then
            (case join_enlist host sid st1 of
               Inl e \<Rightarrow> Inl e
             | Inr st3 \<Rightarrow> bindNextSockets host (emit (Respond sid JoinAck) st3))
          else Inr (emit (Respond sid (ErrorResp invalid_key_message)) st1)
      | Undefined \<Rightarrow> Inr (emit (Respond sid (ErrorResp invalid_key_message)) st1)
      | Inherited \<Rightarrow> Inl TypeError)"

section \<open>Client requests\<close>

text \<open>\<^verbatim>\<open>Buffer.indexOf\<close>: the first position of the pattern, \<open>None\<close> for \<open>-1\<close>.\<close>

fun index_of :: "string \<Rightarrow> string \<Rightarrow> nat option" where
  "index_of pat [] = (if pat = [] then Some 0 else None)"
| "index_of pat (c # cs) =
     (if prefix pat (c # cs) then Some 0 else map_option Suc (index_of pat cs))"

text \<open>
  The regular expression \<^verbatim>\<open>HOST_MATCH = /\r\nHost: (.+)\r\n/\<close>. Its \<^verbatim>\<open>.\<close> matches
  every character but the line terminators CR, LF, U+2028 and U+2029 (the last two are
  \<open>E2 80 A8\<close> and \<open>E2 80 A9\<close> in UTF-8). \<open>dot_run\<close> is the longest run the greedy
  \<^verbatim>\<open>.+\<close> can take. Backtracking to a shorter run never helps: the character after a
  shorter run is not a line terminator, hence not the CR the pattern wants next.
  \<open>match_here\<close> matches the pattern at the start of its argument and yields the
  capture group; \<open>HOST_MATCH\<close> finds the leftmost match, as \<^verbatim>\<open>String.match\<close> does.
\<close>

definition line_terminator_at :: "string \<Rightarrow> bool" where
  "line_terminator_at s =
     (prefix [CR] s \<or> prefix [LF] s
      \<or> prefix [CHR 0xE2, CHR 0x80, CHR 0xA8] s
      \<or> prefix [CHR 0xE2, CHR 0x80, CHR 0xA9] s)"

fun dot_run :: "string \<Rightarrow> string" where
  "dot_run [] = []"
| "dot_run (c # cs) = (if line_terminator_at (c # cs) then [] else c # dot_run cs)"

definition match_here :: "string \<Rightarrow> string option" where
  "match_here s =
     (if prefix (CRLF @ ''Host: '') s then
        (let t = drop 8 s; v = dot_run t in
         if v \<noteq> [] \<and> prefix CRLF (drop (length v) t) then Some v else None)
      else None)"

fun HOST_MATCH :: "string \<Rightarrow> string option" where
  "HOST_MATCH [] = None"
| "HOST_MATCH (c # cs) =
     (case match_here (c # cs) of Some v \<Rightarrow> Some v | None \<Rightarrow> HOST_MATCH cs)"

text \<open>
  \<^verbatim>\<open>.replace(/:.*$/, "")\<close>: the leftmost colon after which no line terminator
  follows up to the end of the string is removed together with what follows it.
\<close>

fun strip_port :: "string \<Rightarrow> string" where
  "strip_port [] = []"
| "strip_port (c # cs) =
     (if c = CHR '':'' \<and> dot_run cs = cs then [] else c # strip_port cs)"

text \<open>The two calls \<^verbatim>\<open>socket.write("HTTP/1.1 404 ..."); socket.end()\<close>.\<close>

definition not_found_response :: string where
  "not_found_response = ''HTTP/1.1 404 Not found'' @ CRLF @ CRLF @ ''Not found''"

definition reply_not_found :: "nat \<Rightarrow> relay_state \<Rightarrow> relay_state" where
  "reply_not_found sid st = emit (End sid) (emit (Write sid not_found_response) st)"

text \<open>
  \<^verbatim>\<open>onSocketClientData(data)\<close> on socket \<open>sid\<close> (\<^verbatim>\<open>relay.js:150-181\<close>). The
  handler detaches itself on a host socket, and after a client has been queued; after a
  404 it stays attached.
\<close>

definition onSocketClientData :: "nat \<Rightarrow> string \<Rightarrow> relay_state \<Rightarrow> error + relay_state" where
  "onSocketClientData sid data st =
     (if sock_type (sockets st sid) = TYPE_HOST
      then Inr (upd_socket sid (\<lambda>s. s\<lparr>listening := False\<rparr>) st)
      else
        let st1 = upd_socket sid (\<lambda>s. s\<lparr>requestBuffer := requestBuffer s @ data\<rparr>) st;
            buf = requestBuffer (sockets st1 sid)
        in case index_of (CRLF @ CRLF) buf of
             None \<Rightarrow> Inr st1
           | Some headLastByte \<Rightarrow>
               (let head = take (headLastByte + 2) buf;
                    host_match = HOST_MATCH head;
                    host = map_option strip_port host_match
                in case host of
                     None \<Rightarrow> Inr (reply_not_found sid st1)
                   | Some h \<Rightarrow>
                       if h \<noteq> [] \<and> truthy_array (js_get (hosts st1) h) then
                         (let st2 = upd_socket sid (\<lambda>s. s\<lparr>sock_host := Some h\<rparr>) st1 in
                          case js_get (clients st2) h of
                            Own cq \<Rightarrow>
                              (let st3 = st2\<lparr>clients := (clients st2)(h \<mapsto> cq @ [sid])\<rparr> in
                               case bindNextSockets h st3 of
                                 Inl e \<Rightarrow> Inl e
                               | Inr st4 \<Rightarrow>
                                   Inr (upd_socket sid (\<lambda>s. s\<lparr>listening := False\<rparr>) st4))
                          | Undefined \<Rightarrow> Inl TypeError
                          | Inherited \<Rightarrow> Inl TypeError)
                       else Inr (reply_not_found sid st1)))"

section \<open>Disconnects\<close>

text \<open>
  \<^verbatim>\<open>closeCouloirIfEmpty(host)\<close> (\<^verbatim>\<open>relay.js:46-59\<close>) and the \<^verbatim>\<open>end\<close> handler of
  a socket (\<^verbatim>\<open>relay.js:185-194\<close>).
\<close>

definition purge_keys :: "string \<Rightarrow> (string \<rightharpoonup> string) \<Rightarrow> (string \<rightharpoonup> string)" where
  "purge_keys host m = (\<lambda>k. if m k = Some host then None else m k)"

definition delete_couloir :: "string \<Rightarrow> relay_state \<Rightarrow> relay_state" where
  "delete_couloir host st =
     st\<lparr>hosts := (hosts st)(host := None),
        clients := (clients st)(host := None),
        keyToHost := purge_keys host (keyToHost st)\<rparr>"

definition closeCouloirIfEmpty :: "string \<Rightarrow> relay_state \<Rightarrow> error + relay_state" where
  "closeCouloirIfEmpty host st =
     (case js_get (hosts st) host of
        Own hs \<Rightarrow> if length hs > 0 then Inr st else Inr (delete_couloir host st)
      | Undefined \<Rightarrow> Inl TypeError
      | Inherited \<Rightarrow>
          if inherited_length host > 0 then Inr st else Inr (delete_couloir host st))"

definition on_end :: "nat \<Rightarrow> relay_state \<Rightarrow> error + relay_state" where
  "on_end sid st =
     (case sock_host (sockets st sid) of
        None \<Rightarrow> Inr st
      | Some host \<Rightarrow>
          if host \<noteq> [] \<and> sock_type (sockets st sid) = TYPE_HOST
             \<and> truthy_array (js_get (hosts st) host)
          then
            (case js_get (hosts st) host of
               Own hs \<Rightarrow>
                 closeCouloirIfEmpty host
                   (st\<lparr>hosts := (hosts st)(host \<mapsto> filter (\<lambda>i. i \<noteq> sid) hs)\<rparr>)
             | Undefined \<Rightarrow> Inl TypeError
             | Inherited \<Rightarrow> Inl TypeError)
          else Inr st)"

section \<open>Events\<close>

text \<open>
  A new connection gets the next socket id and a fresh \<^verbatim>\<open>relaySocket\<close>. A chunk
  arriving on a socket is handed to \<^verbatim>\<open>onSocketClientData\<close> while that is attached,
  and then written to every socket this one was piped into before the chunk arrived
  (the listeners of \<^verbatim>\<open>pipe\<close> were registered later). The dispatch of control
  messages to \<^verbatim>\<open>onCouloirOpen\<close> and \<^verbatim>\<open>onCouloirJoin\<close> is done by
  \<^verbatim>\<open>protocol.js\<close>; here a control message is an event of its own.
\<close>

definition on_connect :: "relay_state \<Rightarrow> relay_state" where
  "on_connect st =
     (let sid = socketCounter st in
      st\<lparr>socketCounter := sid + 1, sockets := (sockets st)(sid := new_socket)\<rparr>)"

fun pipes_from :: "nat \<Rightarrow> effect list \<Rightarrow> nat list" where
  "pipes_from sid [] = []"
| "pipes_from sid (Pipe a b # es) = (if a = sid then b # pipes_from sid es else pipes_from sid es)"
| "pipes_from sid (e # es) = pipes_from sid es"

definition on_data :: "nat \<Rightarrow> string \<Rightarrow> relay_state \<Rightarrow> error + relay_state" where
  "on_data sid chunk st =
     (let dests = pipes_from sid (io st) in
      case (if listening (sockets st sid) then onSocketClientData sid chunk st else Inr st) of
        Inl e \<Rightarrow> Inl e
      | Inr st1 \<Rightarrow> Inr (fold (\<lambda>d. emit (Write d chunk)) dests st1))"

datatype event =
    Connect
  | OpenCouloir nat "string option" string
  | JoinCouloir nat string
  | Data nat string
  | EndOfSocket nat

fun step :: "relay_config \<Rightarrow> event \<Rightarrow> relay_state \<Rightarrow> error + relay_state" where
  "step cfg Connect st = Inr (on_connect st)"
| "step cfg (OpenCouloir sid host key) st = onCouloirOpen cfg key sid host st"
| "step cfg (JoinCouloir sid key) st = onCouloirJoin sid key st"
| "step cfg (Data sid chunk) st = on_data sid chunk st"
| "step cfg (EndOfSocket sid) st = on_end sid st"

fun run :: "relay_config \<Rightarrow> event list \<Rightarrow> relay_state \<Rightarrow> error + relay_state" where
  "run cfg [] st = Inr st"
| "run cfg (ev # evs) st = (case step cfg ev st of Inl e \<Rightarrow> Inl e | Inr st' \<Rightarrow> run cfg evs st')"

section \<open>The relay socket (\<^verbatim>\<open>RelaySocket\<close>)\<close>

text \<open>
  The class \<^verbatim>\<open>RelaySocket\<close> handles one accepted connection. Of its collaborators
  the sources hold none: the relay object (\<^verbatim>\<open>this.relay\<close>), the couloir objects
  (\<^verbatim>\<open>addHostSocket\<close>, \<^verbatim>\<open>addClientSocket\<close>), the request parser
  (\<^verbatim>\<open>HttpRequest\<close>) and the page renderers (\<^verbatim>\<open>htmlResponse\<close>, \<^verbatim>\<open>logo\<close>).
  They are parameters of the model. A page is kept as the call that renders it.
\<close>

text \<open>
  \<^verbatim>\<open>req.headers\<close>: header names with their values in order; a value is \<open>None\<close> for
  \<^verbatim>\<open>undefined\<close>.
\<close>

type_synonym headers = "(string \<times> string option list) list"

datatype page = Logo string "bool option"   \<comment> \<open>\<^verbatim>\<open>logo(text, { center })\<close>\<close>

datatype wire =
    Raw string
  | HtmlResponse headers page "string option"   \<comment> \<open>\<^verbatim>\<open>htmlResponse(headers, body, { status })\<close>\<close>

datatype message_type = COULOIR_STREAM | COULOIR_OPEN | COULOIR_JOIN

datatype rs_effect =
    SocketWrite nat wire        \<comment> \<open>\<^verbatim>\<open>socket.write\<close>\<close>
  | SocketEnd nat               \<comment> \<open>\<^verbatim>\<open>socket.end\<close>\<close>
  | SendResponse nat            \<comment> \<open>\<^verbatim>\<open>sendResponse()\<close>: the ACK of the current request\<close>
  | SendMessage nat message_type   \<comment> \<open>\<^verbatim>\<open>couloirProtocol.sendMessage(type, null, { skipResponse: true })\<close>\<close>
  | StreamPipe nat nat          \<comment> \<open>\<^verbatim>\<open>a.stream.pipe(b.socket)\<close>\<close>
  | ReqPipe nat nat             \<comment> \<open>\<^verbatim>\<open>a.req.pipe(b.socket)\<close>\<close>
  | EndWith nat nat             \<comment> \<open>\<^verbatim>\<open>a.socket.on("end", () => b.socket.end())\<close>\<close>

record rs_socket =
  rs_host :: "string option"
  rs_type :: "socket_type option"
  bound :: bool
  req :: "headers option"

definition new_rs_socket :: rs_socket where
  "new_rs_socket = \<lparr>rs_host = None, rs_type = None, bound = False, req = None\<rparr>"

text \<open>
  The sockets, what has been done to the outside so far, and the state of the relay
  object, of a type \<open>'x\<close> the model does not look into.
\<close>

record 'x rs_world =
  rs_sockets :: "nat \<Rightarrow> rs_socket"
  rs_log :: "rs_effect list"
  rs_relay :: 'x

text \<open>
  What \<^verbatim>\<open>RelaySocket\<close> uses of the relay and of a couloir (of type \<open>'c\<close>):
  \<^verbatim>\<open>relay.domain\<close>, \<^verbatim>\<open>relay.exposeCommand()\<close>, \<^verbatim>\<open>relay.couloirs[host]\<close>,
  \<^verbatim>\<open>relay.getCouloir(key)\<close>, \<^verbatim>\<open>couloir.addHostSocket(socket)\<close> and
  \<^verbatim>\<open>couloir.addClientSocket(socket)\<close>.
\<close>

record ('c, 'x) rs_env =
  relay_domain :: string
  exposeCommand :: string
  couloirs :: "'x \<Rightarrow> string \<rightharpoonup> 'c"
  getCouloir :: "'x \<Rightarrow> string \<Rightarrow> 'c option"
  addHostSocket :: "'c \<Rightarrow> nat \<Rightarrow> 'x rs_world \<Rightarrow> 'x rs_world"
  addClientSocket :: "'c \<Rightarrow> nat \<Rightarrow> 'x rs_world \<Rightarrow> 'x rs_world"

definition rs_emit :: "rs_effect \<Rightarrow> 'x rs_world \<Rightarrow> 'x rs_world" where
  "rs_emit e w = w\<lparr>rs_log := rs_log w @ [e]\<rparr>"

definition rs_upd :: "nat \<Rightarrow> (rs_socket \<Rightarrow> rs_socket) \<Rightarrow> 'x rs_world \<Rightarrow> 'x rs_world" where
  "rs_upd sid f w = w\<lparr>rs_sockets := (rs_sockets w)(sid := f (rs_sockets w sid))\<rparr>"

text \<open>\<^verbatim>\<open>proxy(hostSocket)\<close> on the client socket \<open>sid\<close>.\<close>

definition proxy :: "nat \<Rightarrow> nat \<Rightarrow> 'x rs_world \<Rightarrow> 'x rs_world" where
  "proxy sid hostSocket w =
     (let w1 = rs_upd hostSocket (\<lambda>s. s\<lparr>bound := True\<rparr>) w;
          w2 = rs_upd sid (\<lambda>s. s\<lparr>bound := True\<rparr>) w1;
          w3 = rs_emit (SendMessage hostSocket COULOIR_STREAM) w2;
          w4 = rs_emit (StreamPipe hostSocket sid) w3;
          w5 = rs_emit (ReqPipe sid hostSocket) w4
      in rs_emit (EndWith sid hostSocket) w5)"

text \<open>
  The handler of \<^verbatim>\<open>COULOIR_JOIN\<close> on socket \<open>sid\<close>. With the world it returns what the
  handler returns to the protocol layer: nothing after it has answered by itself, or the
  error payload.
\<close>

definition on_couloir_join ::
  "('c, 'x) rs_env \<Rightarrow> nat \<Rightarrow> string \<Rightarrow> 'x rs_world \<Rightarrow> 'x rs_world \<times> response option" where
  "on_couloir_join env sid key w =
     (case getCouloir env (rs_relay w) key of
        Some couloir \<Rightarrow> (addHostSocket env couloir sid (rs_emit (SendResponse sid) w), None)
      | None \<Rightarrow> (w, Some (ErrorResp invalid_key_message)))"

text \<open>
  What \<^verbatim>\<open>HttpRequest.nextOnSocket\<close> yields: a request, or one of the failures that
  \<^verbatim>\<open>#listen\<close> tells apart.
\<close>

datatype request_result =
    Request headers
  | InvalidProtocol string
  | EarlySocketClosed
  | OtherFailure

text \<open>\<^verbatim>\<open>req.headers["Host"]?.[0]\<close>.\<close>

definition first_host_value :: "headers \<Rightarrow> string option" where
  "first_host_value hs =
     (case map_of hs ''Host'' of
        None \<Rightarrow> None
      | Some [] \<Rightarrow> None
      | Some (v # vs) \<Rightarrow> v)"

definition hint_text :: "string \<Rightarrow> string" where
  "hint_text cmd = [LF, LF] @ ''  To open a new couloir, run:'' @ [LF] @ ''  > '' @ cmd"

text \<open>The template \<^verbatim>\<open>`404 - Couloir "${host}" is not open`\<close>.\<close>

definition not_open_text :: "string option \<Rightarrow> string" where
  "not_open_text host =
     ''404 - Couloir '' @ [CHR 0x22]
       @ (case host of None \<Rightarrow> ''undefined'' | Some h \<Rightarrow> h)
       @ [CHR 0x22] @ '' is not open''"

text \<open>
  The client branch of \<^verbatim>\<open>#listen\<close> (the socket did not start with a control
  message) on socket \<open>sid\<close>, given what \<^verbatim>\<open>HttpRequest.nextOnSocket\<close> yielded.
\<close>

definition listen_client ::
  "('c, 'x) rs_env \<Rightarrow> nat \<Rightarrow> request_result \<Rightarrow> 'x rs_world \<Rightarrow> error + 'x rs_world" where
  "listen_client env sid r w =
     (let w1 = rs_upd sid (\<lambda>s. s\<lparr>rs_type := Some TYPE_CLIENT\<rparr>) w in
      case r of
        Request hdrs \<Rightarrow>
          (let w2 = rs_upd sid (\<lambda>s. s\<lparr>req := Some hdrs\<rparr>) w1;
               host = map_option strip_port (first_host_value hdrs);
               truthy = (host \<noteq> None \<and> host \<noteq> Some [])
           in if truthy \<and> host = Some (relay_domain env) then
                Inr (rs_emit (SocketEnd sid)
                      (rs_emit (SocketWrite sid
                         (HtmlResponse hdrs (Logo (hint_text (exposeCommand env)) (Some False)) None))
                       w2))
              else
                (case (if truthy then couloirs env (rs_relay w2) (the host) else None) of
                   Some couloir \<Rightarrow> Inr (addClientSocket env couloir sid w2)
                 | None \<Rightarrow>
                     Inr (rs_emit (SocketEnd sid)
                           (rs_emit (SocketWrite sid
                              (HtmlResponse hdrs (Logo (not_open_text host) None)
                                 (Some ''404 Not found'')))
                            w2))))
      | InvalidProtocol message \<Rightarrow>
          Inr (rs_emit (SocketEnd sid)
                (rs_emit (SocketWrite sid
                   (Raw (''HTTP/1.1 400 Bad Request'' @ CRLF @ CRLF @ message @ ''.''))) w1))
      | EarlySocketClosed \<Rightarrow> Inr w1
      | OtherFailure \<Rightarrow> Inl Rethrown)"

section \<open>A relay on \<open>my.test\<close>\<close>

definition my_test :: relay_config where
  "my_test = \<lparr>domain = ''my.test'', http = True\<rparr>"

definition get_request :: "string \<Rightarrow> string" where
  "get_request h = ''GET / HTTP/1.1'' @ CRLF @ ''Host: '' @ h @ CRLF @ CRLF"

text \<open>The effects of a run, \<open>None\<close> when a handler threw.\<close>

definition io_of :: "error + relay_state \<Rightarrow> effect list option" where
  "io_of r = (case r of Inl e \<Rightarrow> None | Inr st \<Rightarrow> Some (io st))"

text \<open>The state the relay on \<open>my.test\<close> is in after a list of events.\<close>

definition after :: "event list \<Rightarrow> relay_state" where
  "after evs = (case run my_test evs init_state of Inr st \<Rightarrow> st | Inl e \<Rightarrow> init_state)"

text \<open>The bytes written to one socket, in the order of the writes.\<close>

fun written_to :: "nat \<Rightarrow> effect list \<Rightarrow> string" where
  "written_to sid [] = []"
| "written_to sid (Write a bytes # es) =
     (if a = sid then bytes @ written_to sid es else written_to sid es)"
| "written_to sid (e # es) = written_to sid es"

text \<open>
  The validation the specification asks of an explicit custom name, in its own words:
  the name matches \<^verbatim>\<open>^[a-z0-9-]+\.<relayDomain>$\<close>. It is stated here to be compared
  with what \<^verbatim>\<open>onCouloirOpen\<close> checks.
\<close>

definition label_char :: "char \<Rightarrow> bool" where
  "label_char c = (c \<in> set ''abcdefghijklmnopqrstuvwxyz0123456789-'')"

definition spec_valid_custom_name :: "string \<Rightarrow> string \<Rightarrow> bool" where
  "spec_valid_custom_name d h =
     (endsWith h (''.'' @ d) \<and>
      (let label = take (length h - (length d + 1)) h
       in label \<noteq> [] \<and> list_all label_char label))"

text \<open>The state after a successful \<^verbatim>\<open>onCouloirOpen\<close> that registers \<open>host\<close>.\<close>

definition opened :: "relay_config \<Rightarrow> string \<Rightarrow> nat \<Rightarrow> string \<Rightarrow> relay_state \<Rightarrow> relay_state" where
  "opened cfg key sid host st =
     st\<lparr>couloirCounter := couloirCounter st + 1,
        hosts := (hosts st)(host \<mapsto> []),
        clients := (clients st)(host \<mapsto> []),
        keyToHost := (keyToHost st)(key \<mapsto> host),
        sockets := (sockets st)(sid := (sockets st sid)
                      \<lparr>sock_type := TYPE_HOST, sock_host := Some host\<rparr>),
        io := io st @ (if http cfg then [] else [GetCertOnDemand host])
                    @ [Respond sid (OpenAck key host)]\<rparr>"

text \<open>The state after \<^verbatim>\<open>onSocketClientData\<close> has appended a chunk and answered 404.\<close>

definition not_found_reply :: "nat \<Rightarrow> string \<Rightarrow> relay_state \<Rightarrow> relay_state" where
  "not_found_reply sid data st =
     st\<lparr>sockets := (sockets st)(sid := (sockets st sid)
                      \<lparr>requestBuffer := requestBuffer (sockets st sid) @ data\<rparr>),
        io := io st @ [Write sid not_found_response, End sid]\<rparr>"

text \<open>Two requests whose Host header is not spelled \<^verbatim>\<open>Host: \<close>.\<close>

definition lower_case_request :: string where
  "lower_case_request = ''GET / HTTP/1.1'' @ CRLF @ ''host: x.my.test'' @ CRLF @ CRLF"

definition no_space_request :: string where
  "no_space_request = ''GET / HTTP/1.1'' @ CRLF @ ''Host:x.my.test'' @ CRLF @ CRLF"

text \<open>The relay with the couloir \<open>x.my.test\<close> open and a second connection accepted.\<close>

definition x_opened :: relay_state where
  "x_opened = after [Connect, OpenCouloir 0 (Some ''x.my.test'') ''k1'', Connect]"

text \<open>The exposer socket 1 of \<open>x.my.test\<close> is bound to client 2 while client 3 waits.\<close>

definition busy_and_pending :: "event list" where
  "busy_and_pending =
     [Connect, OpenCouloir 0 (Some ''x.my.test'') ''k1'',
      Connect, JoinCouloir 1 ''k1'',
      Connect, Data 2 (get_request ''x.my.test''),
      Connect, Data 3 (get_request ''x.my.test'')]"

text \<open>
  The buffer holds a complete request head (up to the first blank line) whose first
  line starting with \<^verbatim>\<open>Host: \<close> is \<^verbatim>\<open>Host: v\<close>.
\<close>

definition head_has_host :: "string \<Rightarrow> string \<Rightarrow> bool" where
  "head_has_host buf v =
     (case index_of (CRLF @ CRLF) buf of
        None \<Rightarrow> False
      | Some n \<Rightarrow>
          (case index_of (CRLF @ ''Host: '') (take (n + 2) buf) of
             None \<Rightarrow> False
           | Some k \<Rightarrow> prefix (v @ CRLF) (drop (k + 8) (take (n + 2) buf))))"

text \<open>
  The header value \<open>v\<close> is \<open>h\<close> or \<open>h:port\<close>, for a host name \<open>h\<close> that is not
  empty and has no colon; \<open>v\<close> has no line terminator.
\<close>

definition host_or_host_port :: "string \<Rightarrow> string \<Rightarrow> bool" where
  "host_or_host_port v h =
     (h \<noteq> [] \<and> CHR '':'' \<notin> set h \<and> dot_run v = v
      \<and> (v = h \<or> prefix (h @ '':'') v))"


text \<open>
  A relay socket that has been classified as a client with its request, and a world in
  which a page has been written to a socket and the socket closed.
\<close>

definition received :: "nat \<Rightarrow> headers \<Rightarrow> 'x rs_world \<Rightarrow> 'x rs_world" where
  "received sid hdrs w =
     w\<lparr>rs_sockets := (rs_sockets w)(sid := (rs_sockets w sid)
                        \<lparr>rs_type := Some TYPE_CLIENT, req := Some hdrs\<rparr>)\<rparr>"

definition answered :: "nat \<Rightarrow> wire \<Rightarrow> 'x rs_world \<Rightarrow> 'x rs_world" where
  "answered sid page w = w\<lparr>rs_log := rs_log w @ [SocketWrite sid page, SocketEnd sid]\<rparr>"

text \<open>
  What a call of \<^verbatim>\<open>bindNextSockets(host)\<close> leaves alone: the exposer lists, the
  keys, the counters, the queues of the other couloirs and what has been done so far.
\<close>

definition bind_frame :: "string \<Rightarrow> relay_state \<Rightarrow> relay_state \<Rightarrow> bool" where
  "bind_frame host st st' =
     (hosts st' = hosts st \<and> keyToHost st' = keyToHost st
      \<and> couloirCounter st' = couloirCounter st \<and> socketCounter st' = socketCounter st
      \<and> (\<exists>cq'. clients st' = (clients st)(host \<mapsto> cq'))
      \<and> prefix (io st) (io st'))"

text \<open>
  An instance of the collaborators of \<^verbatim>\<open>RelaySocket\<close>, for the witnesses: a relay on
  \<open>my.test\<close> with the one couloir \<open>x.my.test\<close> under the key \<open>k1\<close>. Its state is
  the list of idle exposer sockets and the list of waiting clients; a socket that arrives
  is paired through \<^verbatim>\<open>proxy\<close> with the oldest socket of the other side, or waits.
\<close>

definition example_addHostSocket ::
  "string \<Rightarrow> nat \<Rightarrow> (nat list \<times> nat list) rs_world \<Rightarrow> (nat list \<times> nat list) rs_world" where
  "example_addHostSocket couloir sid w =
     (case rs_relay w of
        (idle, []) \<Rightarrow> w\<lparr>rs_relay := (idle @ [sid], [])\<rparr>
      | (idle, c # waiting) \<Rightarrow> proxy c sid (w\<lparr>rs_relay := (idle, waiting)\<rparr>))"

definition example_addClientSocket ::
  "string \<Rightarrow> nat \<Rightarrow> (nat list \<times> nat list) rs_world \<Rightarrow> (nat list \<times> nat list) rs_world" where
  "example_addClientSocket couloir sid w =
     (case rs_relay w of
        ([], waiting) \<Rightarrow> w\<lparr>rs_relay := ([], waiting @ [sid])\<rparr>
      | (h # idle, waiting) \<Rightarrow> proxy sid h (w\<lparr>rs_relay := (idle, waiting)\<rparr>))"

definition example_env :: "(string, nat list \<times> nat list) rs_env" where
  "example_env =
     \<lparr>relay_domain = ''my.test'',
      exposeCommand = ''couloir 3000 --on my.test'',
      couloirs = (\<lambda>x. [''x.my.test'' \<mapsto> ''x.my.test'']),
      getCouloir = (\<lambda>x key. if key = ''k1'' then Some ''x.my.test'' else None),
      addHostSocket = example_addHostSocket,
      addClientSocket = example_addClientSocket\<rparr>"

text \<open>
  Two worlds of that relay: one with client 7 waiting, one with the exposer socket 4 idle.
\<close>

definition example_world :: "(nat list \<times> nat list) rs_world" where
  "example_world = \<lparr>rs_sockets = (\<lambda>_. new_rs_socket), rs_log = [], rs_relay = ([], [7])\<rparr>"

definition idle_world :: "(nat list \<times> nat list) rs_world" where
  "idle_world = \<lparr>rs_sockets = (\<lambda>_. new_rs_socket), rs_log = [], rs_relay = ([4], [])\<rparr>"

text \<open>
  The relay of \<^verbatim>\<open>relay.js\<close> on \<open>my.test\<close> with \<open>x.my.test\<close> open: with client 1
  waiting, and with the exposer socket 1 idle.
\<close>

definition x_waiting :: relay_state where
  "x_waiting = after [Connect, OpenCouloir 0 (Some ''x.my.test'') ''k1'',
                      Connect, Data 1 (get_request ''x.my.test''), Connect]"


text \<open>
  The state in which \<^verbatim>\<open>onCouloirJoin\<close> calls \<^verbatim>\<open>bindNextSockets\<close>: the socket is
  a host socket of its couloir, the last of \<^verbatim>\<open>hosts[host]\<close>, and has been answered.
\<close>

definition enlisted :: "nat \<Rightarrow> string \<Rightarrow> nat list \<Rightarrow> relay_state \<Rightarrow> relay_state" where
  "enlisted sid host hs st =
     st\<lparr>sockets := (sockets st)(sid := (sockets st sid)
                      \<lparr>sock_type := TYPE_HOST, sock_host := Some host\<rparr>),
        hosts := (hosts st)(host \<mapsto> hs @ [sid]),
        io := io st @ [Enlist host sid, Respond sid JoinAck]\<rparr>"




definition hint_page :: "headers \<Rightarrow> string \<Rightarrow> wire" where
  "hint_page hdrs cmd = HtmlResponse hdrs (Logo (hint_text cmd) (Some False)) None"

definition host_headers :: "string \<Rightarrow> headers" where
  "host_headers v = [(''Host'', [Some v])]"

section \<open>Properties of the model\<close>

subsection \<open>Opening\<close>

lemma endsWith_default_host: "endsWith (default_host d n) (''.'' @ d)"
  by (simp add: endsWith_def default_host_def suffix_def)

subsection \<open>Pairing returns and only touches the queue, the busy flags and the output\<close>

lemma hosts_pair_sockets [simp]: "hosts (pair_sockets c h st) = hosts st"
  by (simp add: pair_sockets_def Let_def emit_def upd_socket_def)

lemma keyToHost_pair_sockets [simp]: "keyToHost (pair_sockets c h st) = keyToHost st"
  by (simp add: pair_sockets_def Let_def emit_def upd_socket_def)

lemma couloirCounter_pair_sockets [simp]:
  "couloirCounter (pair_sockets c h st) = couloirCounter st"
  by (simp add: pair_sockets_def Let_def emit_def upd_socket_def)

lemma socketCounter_pair_sockets [simp]:
  "socketCounter (pair_sockets c h st) = socketCounter st"
  by (simp add: pair_sockets_def Let_def emit_def upd_socket_def)

lemma io_pair_sockets:
  "io (pair_sockets c h st) =
     io st @ [Pipe c h, Write h (requestBuffer (sockets st c)), Pipe h c]"
  by (simp add: pair_sockets_def Let_def emit_def upd_socket_def)

lemma bind_frame_refl: "clients st host = Some cq \<Longrightarrow> bind_frame host st st"
  by (auto simp: bind_frame_def intro!: exI[of _ cq])

lemma bind_frame_trans:
  "bind_frame host a b \<Longrightarrow> bind_frame host b c \<Longrightarrow> bind_frame host a c"
  unfolding bind_frame_def by (auto intro: prefix_order.trans)

lemma bind_frame_round:
  assumes "clients st host = Some cq"
  shows "bind_frame host st
           (pair_sockets c h (st\<lparr>clients := (clients st)(host \<mapsto> tl cq)\<rparr>))"
  unfolding bind_frame_def using assms
  by (auto simp: io_pair_sockets pair_sockets_def Let_def emit_def upd_socket_def)

lemma bind_returns_aux:
  "hosts st host \<noteq> None \<longrightarrow> clients st host \<noteq> None \<longrightarrow>
     (\<exists>st'. bindNextSockets host st = Inr st' \<and> bind_frame host st st')"
  "hosts st host \<noteq> None \<longrightarrow> clients st host \<noteq> None \<longrightarrow>
     (\<exists>st'. bind_while host ph st = Inr st' \<and> bind_frame host st st')"
proof (induction host st and host ph st rule: bindNextSockets_bind_while.induct)
  case (1 host st)
  show ?case
  proof (intro impI)
    assume h: "hosts st host \<noteq> None" and c: "clients st host \<noteq> None"
    then obtain hs cq where hs: "hosts st host = Some hs" and cq: "clients st host = Some cq"
      by auto
    have jh: "js_get (hosts st) host = Own hs" and jc: "js_get (clients st) host = Own cq"
      using hs cq by (simp_all add: js_get_def)
    from "1.IH"[OF jh refl jc] h c
    obtain st' where "bind_while host (filter (\<lambda>i. \<not> busy (sockets st i)) hs) st = Inr st'"
      and "bind_frame host st st'" by auto
    then show "\<exists>st'. bindNextSockets host st = Inr st' \<and> bind_frame host st st'"
      using jh jc by (simp add: bindNextSockets.simps [of host st] Let_def)
  qed
next
  case (2 host ph st)
  show ?case
  proof (intro impI)
    assume h: "hosts st host \<noteq> None" and c: "clients st host \<noteq> None"
    then obtain cq where cq: "clients st host = Some cq" by auto
    show "\<exists>st'. bind_while host ph st = Inr st' \<and> bind_frame host st st'"
    proof (cases "cq \<noteq> [] \<and> ph \<noteq> []")
      case False
      then show ?thesis
        using cq bind_frame_refl[OF cq] by (auto simp: bind_while.simps [of host ph st])
    next
      case True
      define st2 where
        "st2 = pair_sockets (hd cq) (hd ph) (st\<lparr>clients := (clients st)(host \<mapsto> tl cq)\<rparr>)"
      have f2: "bind_frame host st st2"
        unfolding st2_def by (rule bind_frame_round[OF cq])
      have h2: "hosts st2 host \<noteq> None" and c2: "clients st2 host \<noteq> None"
        using h by (simp_all add: st2_def)
      from "2.IH"(1)[OF cq True refl refl refl refl] h2 c2
      obtain st3 where b3: "bindNextSockets host st2 = Inr st3" and f3: "bind_frame host st2 st3"
        by (auto simp: st2_def)
      have h3: "hosts st3 host \<noteq> None" and c3: "clients st3 host \<noteq> None"
        using f3 h2 by (auto simp: bind_frame_def)
      from "2.IH"(2)[OF cq True refl refl refl refl] b3 h3 c3
      obtain st4 where b4: "bind_while host ph st3 = Inr st4" and f4: "bind_frame host st3 st4"
        by (auto simp: st2_def)
      have "bind_while host ph st = Inr st4"
        using cq True b3 b4 by (simp add: bind_while.simps [of host ph st] Let_def st2_def)
      moreover have "bind_frame host st st4"
        using f2 f3 f4 by (blast intro: bind_frame_trans)
      ultimately show ?thesis by blast
    qed
  qed
qed

lemma bind_returns:
  assumes "hosts st host = Some hs" and "clients st host = Some cq"
  shows "\<exists>st'. bindNextSockets host st = Inr st' \<and> bind_frame host st st'"
  using bind_returns_aux(1)[of st host] assms by simp

subsection \<open>The regular expressions\<close>

lemma index_of_None_prefix: "index_of pat s = None \<Longrightarrow> \<not> prefix pat s"
  by (cases s) (auto split: if_splits)

lemma HOST_MATCH_without_header:
  "index_of (CRLF @ ''Host: '') s = None \<Longrightarrow> HOST_MATCH s = None"
proof (induction s)
  case Nil
  then show ?case by simp
next
  case (Cons c cs)
  from Cons.prems have np: "\<not> prefix (CRLF @ ''Host: '') (c # cs)"
    and rest: "index_of (CRLF @ ''Host: '') cs = None"
    by (auto split: if_splits)
  from np have "match_here (c # cs) = None" by (simp add: match_here_def)
  with Cons.IH[OF rest] show ?case by simp
qed

lemma HOST_MATCH_at_first_header:
  "index_of (CRLF @ ''Host: '') s = Some n \<Longrightarrow> match_here (drop n s) = Some v
     \<Longrightarrow> HOST_MATCH s = Some v"
proof (induction s arbitrary: n)
  case Nil
  then show ?case by (simp add: match_here_def CRLF_def)
next
  case (Cons c cs)
  show ?case
  proof (cases "prefix (CRLF @ ''Host: '') (c # cs)")
    case True
    with Cons.prems have "n = 0" by simp
    with Cons.prems show ?thesis by simp
  next
    case False
    with Cons.prems obtain m where n: "n = Suc m" and m: "index_of (CRLF @ ''Host: '') cs = Some m"
      by auto
    from False have "match_here (c # cs) = None" by (simp add: match_here_def)
    moreover have "HOST_MATCH cs = Some v"
      using Cons.IH[OF m] Cons.prems(2) n by simp
    ultimately show ?thesis by simp
  qed
qed

text \<open>A string without line terminator is one the \<^verbatim>\<open>.\<close> of a regular expression runs through.\<close>

lemma line_terminator_at_CR [simp]: "line_terminator_at (CR # s)"
  by (simp add: line_terminator_at_def)

lemma dot_run_before_CR:
  "dot_run v = v \<Longrightarrow> dot_run (v @ CR # s) = v"
proof (induction v)
  case Nil
  then show ?case by simp
next
  case (Cons c cs)
  from Cons.prems have nt: "\<not> line_terminator_at (c # cs)" and run: "dot_run cs = cs"
    by (auto split: if_splits)
  have "\<not> line_terminator_at (c # cs @ CR # s)"
  proof (cases cs)
    case Nil
    with nt show ?thesis by (auto simp: line_terminator_at_def CR_def LF_def)
  next
    case (Cons d ds)
    note outer = this
    show ?thesis
    proof (cases ds)
      case Nil
      with nt outer show ?thesis by (auto simp: line_terminator_at_def CR_def LF_def)
    next
      case (Cons e es)
      with nt outer show ?thesis by (auto simp: line_terminator_at_def CR_def LF_def)
    qed
  qed
  with Cons.IH[OF run] show ?case by simp
qed

lemma match_here_header:
  assumes "v \<noteq> []" and "dot_run v = v"
  shows "match_here (CRLF @ ''Host: '' @ v @ CRLF @ rest) = Some v"
proof -
  have "dot_run (v @ CRLF @ rest) = v"
    using dot_run_before_CR[OF assms(2)] by (simp add: CRLF_def)
  then show ?thesis
    using assms(1) by (simp add: match_here_def CRLF_def Let_def)
qed

lemma strip_port_no_colon: "CHR '':'' \<notin> set h \<Longrightarrow> strip_port h = h"
  by (induction h) auto

lemma strip_port_colon:
  "CHR '':'' \<notin> set h \<Longrightarrow> dot_run port = port \<Longrightarrow> strip_port (h @ CHR '':'' # port) = h"
  by (induction h) auto

lemma dot_run_idem_append:
  "dot_run (a @ b) = a @ b \<Longrightarrow> dot_run b = b"
  by (induction a) (auto split: if_splits)

subsection \<open>Client requests\<close>

lemma client_data_no_match:
  assumes "sock_type (sockets st sid) = TYPE_CLIENT"
    and "index_of (CRLF @ CRLF) (requestBuffer (sockets st sid) @ data) = Some n"
    and "HOST_MATCH (take (n + 2) (requestBuffer (sockets st sid) @ data)) = None"
  shows "onSocketClientData sid data st = Inr (not_found_reply sid data st)"
  using assms
  by (simp add: onSocketClientData_def Let_def upd_socket_def reply_not_found_def emit_def
      not_found_reply_def)

lemma strip_port_host_or_host_port: "host_or_host_port v h \<Longrightarrow> strip_port v = h"
proof -
  assume a: "host_or_host_port v h"
  then have nc: "CHR '':'' \<notin> set h" and run: "dot_run v = v"
    and alt: "v = h \<or> prefix (h @ '':'') v"
    by (simp_all add: host_or_host_port_def)
  from alt show ?thesis
  proof
    assume "v = h"
    with nc show ?thesis by (simp add: strip_port_no_colon)
  next
    assume "prefix (h @ '':'') v"
    then obtain port where v: "v = h @ '':'' @ port" by (auto simp: prefix_def)
    with run have "dot_run (h @ CHR '':'' # port) = h @ CHR '':'' # port" by simp
    then have "dot_run (CHR '':'' # port) = CHR '':'' # port" by (rule dot_run_idem_append)
    then have "dot_run port = port" by (auto split: if_splits)
    with nc v show ?thesis by (simp add: strip_port_colon)
  qed
qed

lemma host_or_host_port_nonempty: "host_or_host_port v h \<Longrightarrow> v \<noteq> [] \<and> dot_run v = v \<and> h \<noteq> []"
  by (auto simp: host_or_host_port_def)

lemma index_of_Some_prefix: "index_of pat s = Some n \<Longrightarrow> prefix pat (drop n s)"
proof (induction s arbitrary: n)
  case Nil
  then show ?case by (simp split: if_splits)
next
  case (Cons c cs)
  then show ?case by (cases "prefix pat (c # cs)") auto
qed

lemma HOST_MATCH_head:
  assumes "head_has_host buf v" and "v \<noteq> []" and "dot_run v = v"
  shows "\<exists>n. index_of (CRLF @ CRLF) buf = Some n \<and> HOST_MATCH (take (n + 2) buf) = Some v"
proof -
  from assms(1) obtain n k where n: "index_of (CRLF @ CRLF) buf = Some n"
    and first: "index_of (CRLF @ ''Host: '') (take (n + 2) buf) = Some k"
    and hv: "prefix (v @ CRLF) (drop (k + 8) (take (n + 2) buf))"
    unfolding head_has_host_def by (auto split: option.splits)
  from index_of_Some_prefix[OF first] obtain t where
    t: "drop k (take (n + 2) buf) = (CRLF @ ''Host: '') @ t"
    by (auto simp: prefix_def)
  have "drop (k + 8) (take (n + 2) buf) = drop 8 (drop k (take (n + 2) buf))"
    by (simp add: add.commute)
  also have "\<dots> = t" unfolding t by (simp add: CRLF_def)
  finally have "prefix (v @ CRLF) t" using hv by simp
  then obtain rest where "t = v @ CRLF @ rest" by (auto simp: prefix_def)
  with t have d: "drop k (take (n + 2) buf) = CRLF @ ''Host: '' @ v @ CRLF @ rest" by simp
  have "match_here (drop k (take (n + 2) buf)) = Some v"
    unfolding d by (rule match_here_header[OF assms(2,3)])
  with first have "HOST_MATCH (take (n + 2) buf) = Some v"
    by (rule HOST_MATCH_at_first_header)
  with n show ?thesis by blast
qed


lemma client_data_unknown_host:
  assumes "sock_type (sockets st sid) = TYPE_CLIENT"
    and "head_has_host (requestBuffer (sockets st sid) @ data) v"
    and "host_or_host_port v h"
    and "hosts st h = None" and "h \<notin> set object_prototype_keys"
  shows "onSocketClientData sid data st = Inr (not_found_reply sid data st)"
proof -
  from assms(3) have v: "v \<noteq> []" "dot_run v = v" and h: "h \<noteq> []" "strip_port v = h"
    using host_or_host_port_nonempty strip_port_host_or_host_port by blast+
  from HOST_MATCH_head[OF assms(2) v] obtain n where
    n: "index_of (CRLF @ CRLF) (requestBuffer (sockets st sid) @ data) = Some n"
    and m: "HOST_MATCH (take (n + 2) (requestBuffer (sockets st sid) @ data)) = Some v"
    by blast
  show ?thesis
    using assms(1,4,5) n m h
    by (simp add: onSocketClientData_def Let_def js_get_def upd_socket_def reply_not_found_def
        emit_def not_found_reply_def)
qed



lemma listen_client_relay_domain:
  assumes "first_host_value hdrs = Some v" and "host_or_host_port v (relay_domain env)"
  shows "listen_client env sid (Request hdrs) w =
     Inr (answered sid (HtmlResponse hdrs (Logo (hint_text (exposeCommand env)) (Some False)) None)
            (received sid hdrs w))"
proof -
  from assms(2) have h: "relay_domain env \<noteq> []" "strip_port v = relay_domain env"
    using host_or_host_port_nonempty strip_port_host_or_host_port by blast+
  show ?thesis using assms(1) h
    by (simp add: listen_client_def Let_def rs_upd_def received_def answered_def rs_emit_def)
qed

lemma hint_text_literal: "sublist ''To open a new couloir'' (hint_text cmd)"
proof -
  have "hint_text cmd = ([LF, LF] @ ''  '') @ ''To open a new couloir''
          @ ('', run:'' @ [LF] @ ''  > '' @ cmd)"
    by (simp add: hint_text_def)
  then show ?thesis unfolding sublist_def by blast
qed

subsection \<open>Joining\<close>

lemma join_known_key:
  assumes "js_get (keyToHost st) key = Own host" and "host \<noteq> []"
    and "hosts st host = Some hs"
  shows "onCouloirJoin sid key st = bindNextSockets host (enlisted sid host hs st)"
  using assms
  by (simp add: onCouloirJoin_def join_enlist_def Let_def upd_socket_def js_get_def emit_def
      enlisted_def)

lemma join_known_key_returns:
  assumes "js_get (keyToHost st) key = Own host" and "host \<noteq> []"
    and "hosts st host = Some hs" and "clients st host = Some cq"
  shows "\<exists>st'. onCouloirJoin sid key st = Inr st'
           \<and> prefix (io st @ [Enlist host sid, Respond sid JoinAck]) (io st')"
proof -
  have "hosts (enlisted sid host hs st) host = Some (hs @ [sid])"
    and "clients (enlisted sid host hs st) host = Some cq"
    using assms(4) by (simp_all add: enlisted_def)
  from bind_returns[OF this] obtain st' where
    b: "bindNextSockets host (enlisted sid host hs st) = Inr st'"
    and f: "bind_frame host (enlisted sid host hs st) st'" by blast
  from f have "prefix (io (enlisted sid host hs st)) (io st')" by (simp add: bind_frame_def)
  then have "prefix (io st @ [Enlist host sid, Respond sid JoinAck]) (io st')"
    by (simp add: enlisted_def)
  with b join_known_key[OF assms(1-3)] show ?thesis by simp
qed

lemma on_couloir_join_known_key:
  assumes "getCouloir env (rs_relay w) key = Some couloir"
  shows "on_couloir_join env sid key w
           = (addHostSocket env couloir sid (w\<lparr>rs_log := rs_log w @ [SendResponse sid]\<rparr>), None)"
  using assms by (simp add: on_couloir_join_def rs_emit_def)

lemma example_addHostSocket_appends:
  "prefix (rs_log w) (rs_log (example_addHostSocket couloir sid w))"
proof (cases "rs_relay w")
  case (Pair idle waiting)
  then show ?thesis
    by (cases waiting)
      (simp_all add: example_addHostSocket_def proxy_def Let_def rs_emit_def rs_upd_def)
qed

section \<open>Opening: claims C3, C7 and C8\<close>

text \<open>
  Claim C3: a second default open after a successful first one is acknowledged with
  \<open>couloir2.<relayDomain>\<close>, not with an error. The code at this input: the first open
  raises \<^verbatim>\<open>couloirCounter\<close> from 0 to 1, the test \<^verbatim>\<open>couloirCounter > 1\<close> of the
  second open fails, the name \<open>couloir.my.test\<close> is chosen again and the second open is
  answered with the error "already opened".
\<close>

theorem second_default_open_is_refused:
  "io_of (run my_test
     [Connect, OpenCouloir 0 (Some ''localhost'') ''k1'',
      Connect, OpenCouloir 1 (Some ''localhost'') ''k2''] init_state)
   = Some [Respond 0 (OpenAck ''k1'' ''couloir.my.test''),
           Respond 1 (ErrorResp ''Couloir host couloir.my.test is already opened'')]"
  by code_simp

text \<open>
  Claim C7: for every \<^verbatim>\<open>OPEN_COULOIR\<close> request whose chosen host \<open>h\<close> (the requested
  name, or the default name when the requested one does not end with
  \<open>.<relayDomain>\<close>) is already an entry of \<^verbatim>\<open>hosts\<close>, the relay answers with exactly
  the payload \<^verbatim>\<open>{error: "Couloir host <h> is already opened"}\<close>, and the registry
  (\<open>hosts\<close>, \<open>clients\<close>, \<open>keyToHost\<close>) and the counter are unchanged: only the type
  flag of the requesting socket and the output change.
\<close>

theorem open_existing_host_rejected:
  assumes "h = chosen_host cfg (couloirCounter st) host"
    and "truthy_array (js_get (hosts st) h)"
  shows "onCouloirOpen cfg key sid (Some host) st =
     Inr (st\<lparr>sockets := (sockets st)(sid := (sockets st sid)\<lparr>sock_type := TYPE_HOST\<rparr>),
            io := io st @ [Respond sid
                    (ErrorResp (''Couloir host '' @ h @ '' is already opened''))]\<rparr>)"
  using assms by (simp add: onCouloirOpen_def Let_def upd_socket_def emit_def)

text \<open>
  Witness for C7: a second open of \<open>x.my.test\<close>, on a new connection, on the relay
  that has opened it.
\<close>

theorem open_existing_host_rejected_witness:
  "onCouloirOpen my_test ''k2'' 1 (Some ''x.my.test'') x_opened =
     Inr (x_opened
       \<lparr>sockets := (sockets x_opened)(1 := (sockets x_opened 1)\<lparr>sock_type := TYPE_HOST\<rparr>),
        io := io x_opened
              @ [Respond 1 (ErrorResp (''Couloir host '' @ ''x.my.test'' @ '' is already opened''))]\<rparr>)"
proof -
  have a: "''x.my.test'' = chosen_host my_test (couloirCounter x_opened) ''x.my.test''"
    by (simp add: chosen_host_def my_test_def endsWith_def suffix_def)
  have b: "truthy_array (js_get (hosts x_opened) ''x.my.test'')"
    by code_simp
  show ?thesis
    using open_existing_host_rejected [OF a b] .
qed

text \<open>
  Counterexample to claim C8 as stated: the name \<open>A_b!.my.test\<close> ends with
  \<open>.my.test\<close>, its label has characters outside \<^verbatim>\<open>[a-z0-9-]\<close>, and the relay
  registers it and acknowledges it.
\<close>

theorem open_unvalidated_name_counterexample:
  "\<not> spec_valid_custom_name ''my.test'' ''A_b!.my.test''
   \<and> io_of (run my_test [Connect, OpenCouloir 0 (Some ''A_b!.my.test'') ''k1''] init_state)
       = Some [Respond 0 (OpenAck ''k1'' ''A_b!.my.test'')]
   \<and> hosts (after [Connect, OpenCouloir 0 (Some ''A_b!.my.test'') ''k1'']) ''A_b!.my.test''
       = Some []"
  by code_simp

text \<open>
  Claim C8, amended: of an explicit host name \<^verbatim>\<open>onCouloirOpen\<close> only tests whether it
  ends with \<open>.<relayDomain>\<close>. A name that does is used as it is, whatever characters its
  label has, and is registered when it is not open yet; a name that does not is not
  rejected but replaced by the default name.
\<close>

theorem open_checks_only_the_domain_suffix:
  "(endsWith host (''.'' @ domain cfg) \<longrightarrow> \<not> truthy_array (js_get (hosts st) host) \<longrightarrow>
      onCouloirOpen cfg key sid (Some host) st = Inr (opened cfg key sid host st))
   \<and> (\<not> endsWith host (''.'' @ domain cfg) \<longrightarrow>
      onCouloirOpen cfg key sid (Some host) st =
      onCouloirOpen cfg key sid (Some (default_host (domain cfg) (couloirCounter st))) st)"
  by (auto simp add: onCouloirOpen_def Let_def upd_socket_def emit_def chosen_host_def
      endsWith_default_host opened_def
      intro!: relay_state.equality relay_socket.equality)

text \<open>
  Witness for C8 amended: \<open>A_b!.my.test\<close> is registered as it is, and \<open>localhost\<close> is
  treated as the default name.
\<close>

theorem open_checks_only_the_domain_suffix_witness:
  "onCouloirOpen my_test ''k1'' 0 (Some ''A_b!.my.test'') init_state
     = Inr (opened my_test ''k1'' 0 ''A_b!.my.test'' init_state)
   \<and> onCouloirOpen my_test ''k1'' 0 (Some ''localhost'') init_state
     = onCouloirOpen my_test ''k1'' 0
         (Some (default_host (domain my_test) (couloirCounter init_state))) init_state"
proof -
  have a: "endsWith ''A_b!.my.test'' (''.'' @ domain my_test)"
    by (simp add: my_test_def endsWith_def suffix_def)
  have b: "\<not> truthy_array (js_get (hosts init_state) ''A_b!.my.test'')"
    by (simp add: init_state_def js_get_def object_prototype_keys_def)
  have c: "\<not> endsWith ''localhost'' (''.'' @ domain my_test)"
    by (simp add: my_test_def endsWith_def suffix_def)
  from open_checks_only_the_domain_suffix [of "''A_b!.my.test''" my_test init_state "''k1''" 0] a b
  have 1: "onCouloirOpen my_test ''k1'' 0 (Some ''A_b!.my.test'') init_state
     = Inr (opened my_test ''k1'' 0 ''A_b!.my.test'' init_state)" by blast
  from open_checks_only_the_domain_suffix [of "''localhost''" my_test init_state "''k1''" 0] c
  have 2: "onCouloirOpen my_test ''k1'' 0 (Some ''localhost'') init_state
     = onCouloirOpen my_test ''k1'' 0
         (Some (default_host (domain my_test) (couloirCounter init_state))) init_state" by blast
  from 1 2 show ?thesis by blast
qed

section \<open>Pairing: claims C1 and C5\<close>

text \<open>
  Claim C1: an exposer socket, once paired, is never selected for pairing again, and the
  number of bound pairs is the minimum of the exposers and the clients consumed. The code
  at this input: two clients wait on \<open>couloir.my.test\<close> when the first exposer socket
  (socket 3) joins. The first round of the loop pairs client 1 with socket 3; the nested
  call finds no idle exposer and returns; the loop of the outer call still holds socket 3
  as \<^verbatim>\<open>pendingHosts[0]\<close> and pairs client 2 with it as well. Two pairs are bound
  with one exposer socket.
\<close>

theorem pairing_selects_busy_exposer_again:
  "io_of (run my_test
     [Connect, OpenCouloir 0 (Some ''localhost'') ''k1'',
      Connect, Data 1 (get_request ''couloir.my.test''),
      Connect, Data 2 (get_request ''couloir.my.test''),
      Connect, JoinCouloir 3 ''k1''] init_state)
   = Some [Respond 0 (OpenAck ''k1'' ''couloir.my.test''),
       Enlist ''couloir.my.test'' 3, Respond 3 JoinAck,
       Pipe 1 3, Write 3 (get_request ''couloir.my.test''), Pipe 3 1,
       Pipe 2 3, Write 3 (get_request ''couloir.my.test''), Pipe 3 2]"
  by code_simp

text \<open>
  Claim C5: the exposer receives exactly the preface \<open>P\<close> of its client followed by the
  client's later bytes \<open>Q\<close>. The code at the input of C1, followed by a chunk of client
  1: socket 3 is written the preface of client 1, then the preface of client 2, then the
  later chunk of client 1.
\<close>

theorem exposer_receives_two_prefaces:
  "written_to 3 (io (after
     [Connect, OpenCouloir 0 (Some ''localhost'') ''k1'',
      Connect, Data 1 (''GET /a HTTP/1.1'' @ CRLF @ ''Host: couloir.my.test'' @ CRLF @ CRLF),
      Connect, Data 2 (''GET /b HTTP/1.1'' @ CRLF @ ''Host: couloir.my.test'' @ CRLF @ CRLF),
      Connect, JoinCouloir 3 ''k1'',
      Data 1 ''tail-of-a'']))
   = (''GET /a HTTP/1.1'' @ CRLF @ ''Host: couloir.my.test'' @ CRLF @ CRLF)
     @ (''GET /b HTTP/1.1'' @ CRLF @ ''Host: couloir.my.test'' @ CRLF @ CRLF)
     @ ''tail-of-a''"
  by code_simp

section \<open>Teardown: claim C4\<close>

text \<open>
  Counterexample to claim C4 as stated: the only exposer socket of \<open>x.my.test\<close>
  (socket 1, bound to client 2) disconnects while client 3 is still pending, and the
  couloir is deleted with its pending queue and its key.
\<close>

theorem teardown_with_pending_client_counterexample:
  "hosts (after busy_and_pending) ''x.my.test'' = Some [1]
   \<and> clients (after busy_and_pending) ''x.my.test'' = Some [3]
   \<and> (case on_end 1 (after busy_and_pending) of
         Inl e \<Rightarrow> False
       | Inr st' \<Rightarrow> hosts st' ''x.my.test'' = None \<and> clients st' ''x.my.test'' = None
                     \<and> keyToHost st' ''k1'' = None)"
  by code_simp

text \<open>
  Claim C4, amended: when an exposer socket of a registered couloir disconnects, the
  couloir is deleted from the registry, with its queue of pending clients and every key
  that maps to it, if and only if no exposer socket other than the disconnecting one is
  left in \<^verbatim>\<open>hosts[host]\<close>, idle or bound. The pending clients are not consulted.
  When the couloir stays, only its list of exposer sockets loses the disconnecting one.
\<close>

theorem couloir_deleted_iff_no_exposer_left:
  assumes "sock_host (sockets st sid) = Some host" and "host \<noteq> []"
    and "sock_type (sockets st sid) = TYPE_HOST"
    and "hosts st host = Some hs"
  shows "\<exists>st'. on_end sid st = Inr st'
     \<and> ((hosts st' host = None) = (filter (\<lambda>i. i \<noteq> sid) hs = []))
     \<and> (if filter (\<lambda>i. i \<noteq> sid) hs = []
         then clients st' host = None \<and> (\<forall>k. keyToHost st' k \<noteq> Some host)
         else hosts st' host = Some (filter (\<lambda>i. i \<noteq> sid) hs)
              \<and> clients st' = clients st \<and> keyToHost st' = keyToHost st)"
  using assms
  by (auto simp add: on_end_def js_get_def closeCouloirIfEmpty_def delete_couloir_def
      purge_keys_def)

text \<open>
  Witness for C4 amended: the disconnect of the counterexample.
\<close>

theorem couloir_deleted_iff_no_exposer_left_witness:
  "clients (after busy_and_pending) ''x.my.test'' = Some [3]
   \<and> (\<exists>st'. on_end 1 (after busy_and_pending) = Inr st'
     \<and> ((hosts st' ''x.my.test'' = None) = (filter (\<lambda>i. i \<noteq> 1) [1::nat] = []))
     \<and> (if filter (\<lambda>i. i \<noteq> 1) [1::nat] = []
         then clients st' ''x.my.test'' = None \<and> (\<forall>k. keyToHost st' k \<noteq> Some ''x.my.test'')
         else hosts st' ''x.my.test'' = Some (filter (\<lambda>i. i \<noteq> 1) [1])
              \<and> clients st' = clients (after busy_and_pending)
              \<and> keyToHost st' = keyToHost (after busy_and_pending)))"
proof -
  have a: "sock_host (sockets (after busy_and_pending) 1) = Some ''x.my.test''" by code_simp
  have b: "''x.my.test'' \<noteq> []" by simp
  have c: "sock_type (sockets (after busy_and_pending) 1) = TYPE_HOST" by code_simp
  have d: "hosts (after busy_and_pending) ''x.my.test'' = Some [1]" by code_simp
  have e: "clients (after busy_and_pending) ''x.my.test'' = Some [3]" by code_simp
  show ?thesis
    by (rule conjI [OF e couloir_deleted_iff_no_exposer_left [OF a b c d]])
qed

section \<open>Joining: claim C6\<close>

text \<open>
  Counterexample to claim C6 as stated: in \<^verbatim>\<open>relay.js\<close> the joining socket is
  pushed into \<^verbatim>\<open>hosts[host]\<close> before \<^verbatim>\<open>sendResponse({})\<close> is called.
\<close>

theorem join_enlists_before_ack_counterexample:
  "io_of (run my_test
     [Connect, OpenCouloir 0 (Some ''x.my.test'') ''k1'', Connect, JoinCouloir 1 ''k1'']
     init_state)
   = Some [Respond 0 (OpenAck ''k1'' ''x.my.test''), Enlist ''x.my.test'' 1, Respond 1 JoinAck]"
  by code_simp

text \<open>
  Claim C6, amended: for every \<^verbatim>\<open>JOIN_COULOIR\<close> request with a known key the relay
  emits the ACK before it triggers the pairing, so that the ACK precedes everything the
  pairing emits on the connection. In \<^verbatim>\<open>relay.js\<close> the socket is pushed into
  \<^verbatim>\<open>hosts[host]\<close> first, then the ACK is sent, then \<^verbatim>\<open>bindNextSockets\<close> runs,
  and it returns. In \<^verbatim>\<open>RelaySocket\<close> the ACK is sent first and
  \<^verbatim>\<open>couloir.addHostSocket\<close> is called after it; its outputs, such as the STREAM
  message of \<^verbatim>\<open>proxy\<close>, follow the ACK.
\<close>

theorem ack_precedes_pairing:
  "(js_get (keyToHost st) key = Own host \<longrightarrow> host \<noteq> [] \<longrightarrow>
      hosts st host = Some hs \<longrightarrow> clients st host = Some cq \<longrightarrow>
      onCouloirJoin sid key st = bindNextSockets host (enlisted sid host hs st)
      \<and> (\<exists>st'. onCouloirJoin sid key st = Inr st'
            \<and> prefix (io st @ [Enlist host sid, Respond sid JoinAck]) (io st')))
   \<and> (getCouloir env (rs_relay w) key' = Some couloir \<longrightarrow>
      on_couloir_join env sid' key' w
        = (addHostSocket env couloir sid' (w\<lparr>rs_log := rs_log w @ [SendResponse sid']\<rparr>), None)
      \<and> ((\<forall>w0. prefix (rs_log w0) (rs_log (addHostSocket env couloir sid' w0))) \<longrightarrow>
           prefix (rs_log w @ [SendResponse sid'])
             (rs_log (fst (on_couloir_join env sid' key' w)))))"
proof (intro conjI impI)
  assume a: "js_get (keyToHost st) key = Own host" "host \<noteq> []" "hosts st host = Some hs"
    "clients st host = Some cq"
  show "onCouloirJoin sid key st = bindNextSockets host (enlisted sid host hs st)"
    by (rule join_known_key[OF a(1-3)])
  show "\<exists>st'. onCouloirJoin sid key st = Inr st'
          \<and> prefix (io st @ [Enlist host sid, Respond sid JoinAck]) (io st')"
    by (rule join_known_key_returns[OF a])
next
  assume g: "getCouloir env (rs_relay w) key' = Some couloir"
  show "on_couloir_join env sid' key' w
        = (addHostSocket env couloir sid' (w\<lparr>rs_log := rs_log w @ [SendResponse sid']\<rparr>), None)"
    by (rule on_couloir_join_known_key[OF g])
next
  assume g: "getCouloir env (rs_relay w) key' = Some couloir"
    and app: "\<forall>w0. prefix (rs_log w0) (rs_log (addHostSocket env couloir sid' w0))"
  from app have "prefix (rs_log (w\<lparr>rs_log := rs_log w @ [SendResponse sid']\<rparr>))
      (rs_log (addHostSocket env couloir sid' (w\<lparr>rs_log := rs_log w @ [SendResponse sid']\<rparr>)))"
    by blast
  then show "prefix (rs_log w @ [SendResponse sid'])
      (rs_log (fst (on_couloir_join env sid' key' w)))"
    by (simp add: on_couloir_join_known_key[OF g])
qed

text \<open>
  Witness for C6 amended: a join while a client waits, in both relays. The paired
  client's bytes, and the STREAM message, come after the ACK.
\<close>

theorem ack_precedes_pairing_witness:
  "(onCouloirJoin 2 ''k1'' x_waiting
      = bindNextSockets ''x.my.test'' (enlisted 2 ''x.my.test'' [] x_waiting)
    \<and> (\<exists>st'. onCouloirJoin 2 ''k1'' x_waiting = Inr st'
          \<and> prefix (io x_waiting @ [Enlist ''x.my.test'' 2, Respond 2 JoinAck]) (io st')))
   \<and> io_of (onCouloirJoin 2 ''k1'' x_waiting)
      = Some [Respond 0 (OpenAck ''k1'' ''x.my.test''), Enlist ''x.my.test'' 2,
              Respond 2 JoinAck, Pipe 1 2, Write 2 (get_request ''x.my.test''), Pipe 2 1]
   \<and> (on_couloir_join example_env 9 ''k1'' example_world
        = (addHostSocket example_env ''x.my.test'' 9
             (example_world\<lparr>rs_log := rs_log example_world @ [SendResponse 9]\<rparr>), None)
      \<and> prefix (rs_log example_world @ [SendResponse 9])
           (rs_log (fst (on_couloir_join example_env 9 ''k1'' example_world))))
   \<and> rs_log (fst (on_couloir_join example_env 9 ''k1'' example_world))
      = [SendResponse 9, SendMessage 9 COULOIR_STREAM, StreamPipe 9 7, ReqPipe 7 9, EndWith 7 9]"
proof -
  have k: "js_get (keyToHost x_waiting) ''k1'' = Own ''x.my.test''" by code_simp
  have n: "''x.my.test'' \<noteq> []" by simp
  have h: "hosts x_waiting ''x.my.test'' = Some []" by code_simp
  have c: "clients x_waiting ''x.my.test'' = Some [1]" by code_simp
  have g: "getCouloir example_env (rs_relay example_world) ''k1'' = Some ''x.my.test''"
    by (simp add: example_env_def)
  have app: "\<forall>w0. prefix (rs_log w0) (rs_log (addHostSocket example_env ''x.my.test'' 9 w0))"
    by (simp add: example_env_def example_addHostSocket_appends)
  note t = ack_precedes_pairing [of x_waiting "''k1''" "''x.my.test''" "[]" "[1]" 2
      example_env example_world "''k1''" "''x.my.test''" 9]
  have 1: "onCouloirJoin 2 ''k1'' x_waiting
      = bindNextSockets ''x.my.test'' (enlisted 2 ''x.my.test'' [] x_waiting)
    \<and> (\<exists>st'. onCouloirJoin 2 ''k1'' x_waiting = Inr st'
          \<and> prefix (io x_waiting @ [Enlist ''x.my.test'' 2, Respond 2 JoinAck]) (io st'))"
    using t k n h c by blast
  have 2: "on_couloir_join example_env 9 ''k1'' example_world
        = (addHostSocket example_env ''x.my.test'' 9
             (example_world\<lparr>rs_log := rs_log example_world @ [SendResponse 9]\<rparr>), None)
      \<and> prefix (rs_log example_world @ [SendResponse 9])
           (rs_log (fst (on_couloir_join example_env 9 ''k1'' example_world)))"
    using t g app by blast
  have 3: "io_of (onCouloirJoin 2 ''k1'' x_waiting)
      = Some [Respond 0 (OpenAck ''k1'' ''x.my.test''), Enlist ''x.my.test'' 2,
              Respond 2 JoinAck, Pipe 1 2, Write 2 (get_request ''x.my.test''), Pipe 2 1]"
    by code_simp
  have 4: "rs_log (fst (on_couloir_join example_env 9 ''k1'' example_world))
      = [SendResponse 9, SendMessage 9 COULOIR_STREAM, StreamPipe 9 7, ReqPipe 7 9, EndWith 7 9]"
    by (simp add: on_couloir_join_def example_env_def example_world_def
        example_addHostSocket_def proxy_def Let_def rs_emit_def rs_upd_def)
  show ?thesis by (intro conjI 1 [THEN conjunct1] 1 [THEN conjunct2] 2 [THEN conjunct1]
        2 [THEN conjunct2] 3 4)
qed

section \<open>The Host header: claim C10\<close>

text \<open>
  Claim C10: \<^verbatim>\<open>onSocketClientData\<close> finds the Host header only through the exact
  byte sequence CR LF \<^verbatim>\<open>Host: \<close>. A complete request head in which that sequence
  does not occur (a header spelled \<^verbatim>\<open>host:\<close>, or with no space after the colon)
  is treated as having no Host header: the relay answers 404 and closes the socket,
  whatever couloirs are registered.
\<close>

theorem host_header_match_is_exact:
  assumes "sock_type (sockets st sid) = TYPE_CLIENT"
    and "index_of (CRLF @ CRLF) (requestBuffer (sockets st sid) @ data) = Some n"
    and "index_of (CRLF @ ''Host: '')
           (take (n + 2) (requestBuffer (sockets st sid) @ data)) = None"
  shows "onSocketClientData sid data st = Inr (not_found_reply sid data st)"
  using assms client_data_no_match HOST_MATCH_without_header by blast

text \<open>
  Witness for C10: with \<open>x.my.test\<close> registered, a request with
  \<^verbatim>\<open>host: x.my.test\<close> and one with \<^verbatim>\<open>Host:x.my.test\<close> both get the 404.
\<close>

theorem host_header_match_is_exact_witness:
  "hosts x_opened ''x.my.test'' = Some []
   \<and> onSocketClientData 1 lower_case_request x_opened
       = Inr (not_found_reply 1 lower_case_request x_opened)
   \<and> onSocketClientData 1 no_space_request x_opened
       = Inr (not_found_reply 1 no_space_request x_opened)"
proof -
  have t: "sock_type (sockets x_opened 1) = TYPE_CLIENT" by code_simp
  have r: "hosts x_opened ''x.my.test'' = Some []" by code_simp
  have a1: "index_of (CRLF @ CRLF) (requestBuffer (sockets x_opened 1) @ lower_case_request) = Some 31"
    by code_simp
  have a2: "index_of (CRLF @ ''Host: '')
      (take (31 + 2) (requestBuffer (sockets x_opened 1) @ lower_case_request)) = None"
    by code_simp
  have b1: "index_of (CRLF @ CRLF) (requestBuffer (sockets x_opened 1) @ no_space_request) = Some 30"
    by code_simp
  have b2: "index_of (CRLF @ ''Host: '')
      (take (30 + 2) (requestBuffer (sockets x_opened 1) @ no_space_request)) = None"
    by code_simp
  show ?thesis
    by (intro conjI r host_header_match_is_exact [OF t a1 a2]
        host_header_match_is_exact [OF t b1 b2])
qed

section \<open>Routing by Host: claims C2 and C9\<close>




text \<open>
  Counterexample to claim C9 as stated: \<^verbatim>\<open>onSocketClientData\<close> of \<^verbatim>\<open>relay.js\<close>
  has no branch for the relay domain and answers a request for \<open>my.test\<close> with the 404.
\<close>

theorem relay_js_answers_relay_domain_404_counterexample:
  "io_of (run my_test
     [Connect, OpenCouloir 0 (Some ''x.my.test'') ''k1'',
      Connect, Data 1 (get_request ''my.test'')] init_state)
   = Some [Respond 0 (OpenAck ''k1'' ''x.my.test''), Write 1 not_found_response, End 1]"
  by code_simp

text \<open>
  Claim C9, amended: for every client connection handled by \<^verbatim>\<open>RelaySocket\<close> whose
  Host header value, after port stripping, is the relay domain, the relay writes
  \<^verbatim>\<open>htmlResponse(req.headers, logo(text))\<close> for a text that contains the literal
  \<open>To open a new couloir\<close>, and closes the socket, instead of routing or answering 404.
  \<^verbatim>\<open>onSocketClientData\<close> of \<^verbatim>\<open>relay.js\<close> has no such branch: it answers 404, as
  for any host under which no couloir is registered.
\<close>

theorem relay_domain_hint:
  assumes "host_or_host_port v d"
  shows "(first_host_value hdrs = Some v \<longrightarrow> relay_domain env = d \<longrightarrow>
            listen_client env sid (Request hdrs) w
              = Inr (answered sid (hint_page hdrs (exposeCommand env)) (received sid hdrs w))
            \<and> sublist ''To open a new couloir'' (hint_text (exposeCommand env)))
       \<and> (sock_type (sockets st sid') = TYPE_CLIENT \<longrightarrow>
          head_has_host (requestBuffer (sockets st sid') @ data) v \<longrightarrow>
          d \<notin> set object_prototype_keys \<longrightarrow> hosts st d = None \<longrightarrow>
            onSocketClientData sid' data st = Inr (not_found_reply sid' data st))"
proof (intro conjI impI)
  assume a: "first_host_value hdrs = Some v" and d: "relay_domain env = d"
  from assms d have "host_or_host_port v (relay_domain env)" by simp
  from listen_client_relay_domain[OF a this]
  show "listen_client env sid (Request hdrs) w
          = Inr (answered sid (hint_page hdrs (exposeCommand env)) (received sid hdrs w))"
    by (simp add: hint_page_def)
  show "sublist ''To open a new couloir'' (hint_text (exposeCommand env))"
    by (rule hint_text_literal)
next
  assume a: "sock_type (sockets st sid') = TYPE_CLIENT"
    "head_has_host (requestBuffer (sockets st sid') @ data) v"
    and p: "d \<notin> set object_prototype_keys" and n: "hosts st d = None"
  show "onSocketClientData sid' data st = Inr (not_found_reply sid' data st)"
    by (rule client_data_unknown_host[OF a assms n p])
qed

text \<open>
  Witness for C9 amended: a request for \<open>my.test:443\<close> in both relays.
\<close>

theorem relay_domain_hint_witness:
  "(listen_client example_env 5 (Request (host_headers ''my.test:443'')) idle_world
      = Inr (answered 5 (hint_page (host_headers ''my.test:443'') (exposeCommand example_env))
               (received 5 (host_headers ''my.test:443'') idle_world))
    \<and> sublist ''To open a new couloir'' (hint_text (exposeCommand example_env)))
   \<and> onSocketClientData 1 (get_request ''my.test:443'') x_opened
       = Inr (not_found_reply 1 (get_request ''my.test:443'') x_opened)"
proof -
  have hp: "host_or_host_port ''my.test:443'' ''my.test''" by code_simp
  have f: "first_host_value (host_headers ''my.test:443'') = Some ''my.test:443''"
    by (simp add: first_host_value_def host_headers_def)
  have d: "relay_domain example_env = ''my.test''" by (simp add: example_env_def)
  have t: "sock_type (sockets x_opened 1) = TYPE_CLIENT" by code_simp
  have hd: "head_has_host (requestBuffer (sockets x_opened 1) @ get_request ''my.test:443'')
      ''my.test:443''"
    by code_simp
  have p: "''my.test'' \<notin> set object_prototype_keys" by code_simp
  have n: "hosts x_opened ''my.test'' = None" by code_simp
  note T = relay_domain_hint [OF hp, of "host_headers ''my.test:443''" example_env 5 idle_world
      x_opened 1 "get_request ''my.test:443''"]
  have 1: "listen_client example_env 5 (Request (host_headers ''my.test:443'')) idle_world
      = Inr (answered 5 (hint_page (host_headers ''my.test:443'') (exposeCommand example_env))
               (received 5 (host_headers ''my.test:443'') idle_world))
    \<and> sublist ''To open a new couloir'' (hint_text (exposeCommand example_env))"
    using T f d by blast
  have 2: "onSocketClientData 1 (get_request ''my.test:443'') x_opened
       = Inr (not_found_reply 1 (get_request ''my.test:443'') x_opened)"
    using T t hd p n by blast
  show ?thesis by (intro conjI 1 [THEN conjunct1] 1 [THEN conjunct2] 2)
qed

end
